theory Spec2Isabelle
  imports Complex_Main
begin

section \<open>Errors\<close>

text \<open>
  The exceptions that \<^verbatim>\<open>lpc_workflow.py\<close> can raise, as values. The module defines
  no exception class of its own: every failure is a built-in Python exception or one
  raised inside a library it calls (laspy, rasterio), kept here under its class name.
\<close>

datatype py_error =
    ZeroDivisionError
  | IndexError
  | FileNotFoundError
  | LibraryError string

section \<open>IEEE double arithmetic\<close>

text \<open>
  Coordinates are Python floats, that is IEEE doubles. A finite double is \<open>m * 2 ^ e\<close>
  with \<open>\<bar>m\<bar> < 2 ^ 53\<close>; it is kept in canonical form (an odd mantissa, or \<open>F64 0 0\<close>
  for zero), so equal values are equal terms. Every operation computes the exact result
  and rounds it to 53 significant bits, ties to the even mantissa. The exponent range is
  not bounded: overflow, subnormal numbers, infinities, NaN and the sign of zero are not
  modelled.
\<close>

datatype f64 = F64 (mant: int) (expo: int)

text \<open>The number of bits of a natural number.\<close>

function bit_length :: "nat \<Rightarrow> nat" where
  "bit_length n = (if n = 0 then 0 else 1 + bit_length (n div 2))"
  by pat_completeness auto
termination
  by (relation "measure id") auto

declare bit_length.simps [simp del]

text \<open>
  The canonical form of \<open>m * 2 ^ e\<close>: an odd mantissa, or \<open>F64 0 0\<close> for zero.
\<close>

function normalize_f64 :: "int \<Rightarrow> int \<Rightarrow> f64" where
  "normalize_f64 m e =
     (if m = 0 then F64 0 0
      else if even m then normalize_f64 (m div 2) (e + 1)
      else F64 m e)"
  by pat_completeness auto
termination
  by (relation "measure (\<lambda>(m, e). nat \<bar>m\<bar>)") auto

declare normalize_f64.simps [simp del]

text \<open>
  Rounding \<open>m * 2 ^ e\<close> to 53 significant bits: the \<open>k\<close> surplus bits are cut off and the
  rest is rounded to nearest, ties to even.
\<close>

definition round53 :: "int \<Rightarrow> int \<Rightarrow> f64" where
  "round53 m e =
     (let a = nat \<bar>m\<bar>;
          k = bit_length a - 53
      in if k = 0 then normalize_f64 m e
         else
           let q = a div 2 ^ k;
               r = a mod 2 ^ k;
               half = 2 ^ (k - 1);
               q' = (if r > half \<or> (r = half \<and> odd q) then q + 1 else q)
           in normalize_f64 (sgn m * int q') (e + int k))"

text \<open>Two doubles over their smaller exponent, and the arithmetic on them.\<close>

definition align :: "f64 \<Rightarrow> f64 \<Rightarrow> int \<times> int \<times> int" where
  "align x y =
     (let e = min (expo x) (expo y)
      in (mant x * 2 ^ nat (expo x - e), mant y * 2 ^ nat (expo y - e), e))"

definition f64_add :: "f64 \<Rightarrow> f64 \<Rightarrow> f64" where
  "f64_add x y = (case align x y of (a, b, e) \<Rightarrow> round53 (a + b) e)"

definition f64_sub :: "f64 \<Rightarrow> f64 \<Rightarrow> f64" where
  "f64_sub x y = (case align x y of (a, b, e) \<Rightarrow> round53 (a - b) e)"

definition f64_mul :: "f64 \<Rightarrow> f64 \<Rightarrow> f64" where
  "f64_mul x y = round53 (mant x * mant y) (expo x + expo y)"

definition f64_le :: "f64 \<Rightarrow> f64 \<Rightarrow> bool" where
  "f64_le x y = (case align x y of (a, b, e) \<Rightarrow> a \<le> b)"

definition f64_of_int :: "int \<Rightarrow> f64" where
  "f64_of_int n = round53 n 0"

text \<open>
  Division: the quotient of the mantissas is taken to at least 55 bits, with one more bit
  that tells whether anything was cut off, and rounded. Dividing by zero raises.
\<close>

definition f64_div :: "f64 \<Rightarrow> f64 \<Rightarrow> py_error + f64" where
  "f64_div x y =
     (if mant y = 0 then Inl ZeroDivisionError
      else
        let s = 55 + bit_length (nat \<bar>mant y\<bar>);
            num = nat \<bar>mant x\<bar> * 2 ^ s;
            q = num div nat \<bar>mant y\<bar>;
            r = num mod nat \<bar>mant y\<bar>;
            m = 2 * q + (if r = 0 then 0 else 1)
        in Inr (round53 (sgn (mant x) * sgn (mant y) * int m) (expo x - expo y - int s - 1)))"

text \<open>The smaller and the larger of two doubles.\<close>

definition f64_min :: "f64 \<Rightarrow> f64 \<Rightarrow> f64" where
  "f64_min a b = (if f64_le b a then b else a)"

definition f64_max :: "f64 \<Rightarrow> f64 \<Rightarrow> f64" where
  "f64_max a b = (if f64_le a b then b else a)"

text \<open>
  Some doubles by name: \<open>0.0\<close>, \<open>1.0\<close>, \<open>25.0\<close>, \<open>50.0\<close>, \<open>100.0\<close>, and the double
  nearest to \<open>0.3\<close>.
\<close>

definition d0 :: f64 where "d0 = F64 0 0"

definition d1 :: f64 where "d1 = F64 1 0"

definition d25 :: f64 where "d25 = F64 25 0"

definition d50 :: f64 where "d50 = F64 25 1"

definition d100 :: f64 where "d100 = F64 25 2"

definition x03 :: f64 where "x03 = F64 5404319552844595 (- 54)"

section \<open>square\_split\<close>

text \<open>
  The split factor is a Python \<open>int\<close>; where it, \<open>i\<close> or \<open>j\<close> meets a float it is
  converted to a double. Dividing by zero raises \<open>ZeroDivisionError\<close>; \<open>range(n)\<close> is
  empty for \<open>n \<le> 0\<close>.
\<close>

type_synonym bounds = "f64 \<times> f64 \<times> f64 \<times> f64"

definition py_range :: "int \<Rightarrow> int list" where
  "py_range n = map int [0..<nat n]"

text \<open>The body of the inner loop (lines 23-27): the cell for \<open>i\<close>, \<open>j\<close>.\<close>

definition cell_bounds :: "f64 \<Rightarrow> f64 \<Rightarrow> f64 \<Rightarrow> f64 \<Rightarrow> int \<Rightarrow> int \<Rightarrow> bounds" where
  "cell_bounds x_min y_min x_size y_size i j =
     (let x_min_bound = f64_add (f64_mul x_size (f64_of_int i)) x_min;
          y_min_bound = f64_add (f64_mul y_size (f64_of_int j)) y_min;
          x_max_bound = f64_add x_min_bound x_size;
          y_max_bound = f64_add y_min_bound y_size
      in (x_min_bound, y_min_bound, x_max_bound, y_max_bound))"

text \<open>The two nested \<open>for\<close> loops, each appending to the list \<open>bounds\<close>.\<close>

definition split_inner :: "f64 \<Rightarrow> f64 \<Rightarrow> f64 \<Rightarrow> f64 \<Rightarrow> int \<Rightarrow> bounds list \<Rightarrow> int \<Rightarrow> bounds list" where
  "split_inner x_min y_min x_size y_size square_splits acc i =
     foldl (\<lambda>acc j. acc @ [cell_bounds x_min y_min x_size y_size i j]) acc (py_range square_splits)"

definition split_outer :: "f64 \<Rightarrow> f64 \<Rightarrow> f64 \<Rightarrow> f64 \<Rightarrow> int \<Rightarrow> bounds list" where
  "split_outer x_min y_min x_size y_size square_splits =
     foldl (split_inner x_min y_min x_size y_size square_splits) [] (py_range square_splits)"

definition square_split :: "f64 \<Rightarrow> f64 \<Rightarrow> f64 \<Rightarrow> f64 \<Rightarrow> int \<Rightarrow> py_error + bounds list" where
  "square_split x_min y_min x_max y_max square_splits =
     (case f64_div (f64_sub x_max x_min) (f64_of_int square_splits) of
        Inl e \<Rightarrow> Inl e
      | Inr x_size \<Rightarrow>
     (case f64_div (f64_sub y_max y_min) (f64_of_int square_splits) of
        Inl e \<Rightarrow> Inl e
      | Inr y_size \<Rightarrow> Inr (split_outer x_min y_min x_size y_size square_splits)))"

text \<open>
  Membership of a planar point in a cell, closed on both ends: the test of line 56,
  for one point. Comparisons do not round.
\<close>

definition in_bounds :: "bounds \<Rightarrow> f64 \<Rightarrow> f64 \<Rightarrow> bool" where
  "in_bounds b x y =
     (case b of (x_min, y_min, x_max, y_max) \<Rightarrow>
        f64_le x_min x \<and> f64_le x x_max \<and> f64_le y_min y \<and> f64_le y y_max)"

section \<open>partition\_las\<close>

text \<open>
  A point record. The router reads \<open>x\<close> and \<open>y\<close> only; every other attribute of the
  source format travels with the point as \<open>pt_attrs\<close>.
\<close>

record point =
  pt_x :: f64
  pt_y :: f64
  pt_attrs :: nat

record las_header =
  hdr_x_min :: f64
  hdr_y_min :: f64
  hdr_x_max :: f64
  hdr_y_max :: f64
  point_count :: nat
  point_format :: nat

text \<open>
  The source as \<open>laspy.open\<close> gives it: its header, the points the reader can deliver,
  and, for a truncated or malformed stream, the error the reader raises once those
  points are used up. \<open>point_count\<close> is what the header declares.
\<close>

record las_file =
  header :: las_header
  file_points :: "point list"
  read_failure :: "py_error option"

text \<open>\<open>file.chunk_iterator(n)\<close>: successive chunks of at most \<open>n\<close> points.\<close>

function chunk_iterator :: "nat \<Rightarrow> point list \<Rightarrow> point list list" where
  "chunk_iterator n [] = []"
| "chunk_iterator n (p # ps) =
     (if n = 0 then [] else take n (p # ps) # chunk_iterator n (drop n (p # ps)))"
  by pat_completeness auto
termination
  by (relation "measure (\<lambda>(n, ps). length ps)") auto

text \<open>
  A writer opened with \<open>laspy.open(buff, mode='w', header=h, ...)\<close> on its own in-memory
  buffer: its header, the points written so far, and how many times \<open>close\<close> was called
  on it. The writer works on a copy of the header it is given and does not keep that
  header's extent and point count: when it is opened, laspy's writer resets both on its
  copy (\<open>header.partial_reset()\<close>: an empty extent and the count \<open>0\<close>), and every
  \<open>write_points\<close> grows both by the points written (\<open>header.grow(points)\<close>: minimum and
  maximum with the points' coordinates, the count raised by their number). An extent
  that no point has grown is declared as zeros. Everything else in the header (here the
  point format) stays as given. Opening, writing to and closing such a writer are taken
  not to raise.
\<close>

record las_writer =
  w_header :: las_header
  w_points :: "point list"
  w_closed :: nat

definition partial_reset :: "las_header \<Rightarrow> las_header" where
  "partial_reset h =
     h\<lparr>hdr_x_min := F64 0 0, hdr_y_min := F64 0 0, hdr_x_max := F64 0 0, hdr_y_max := F64 0 0,
       point_count := 0\<rparr>"

definition grow_point :: "las_header \<Rightarrow> point \<Rightarrow> las_header" where
  "grow_point h p =
     (if point_count h = 0
      then h\<lparr>hdr_x_min := pt_x p, hdr_y_min := pt_y p, hdr_x_max := pt_x p, hdr_y_max := pt_y p,
             point_count := 1\<rparr>
      else h\<lparr>hdr_x_min := f64_min (hdr_x_min h) (pt_x p),
             hdr_y_min := f64_min (hdr_y_min h) (pt_y p),
             hdr_x_max := f64_max (hdr_x_max h) (pt_x p),
             hdr_y_max := f64_max (hdr_y_max h) (pt_y p),
             point_count := Suc (point_count h)\<rparr>)"

definition grow :: "las_header \<Rightarrow> point list \<Rightarrow> las_header" where
  "grow h ps = foldl grow_point h ps"

definition open_writer :: "las_header \<Rightarrow> las_writer" where
  "open_writer h = \<lparr>w_header = partial_reset h, w_points = [], w_closed = 0\<rparr>"

definition write_points :: "las_writer \<Rightarrow> point list \<Rightarrow> las_writer" where
  "write_points w ps = w\<lparr>w_header := grow (w_header w) ps, w_points := w_points w @ ps\<rparr>"

definition close_writer :: "las_writer \<Rightarrow> las_writer" where
  "close_writer w = w\<lparr>w_closed := Suc (w_closed w)\<rparr>"

text \<open>
  The bytes of a writer's buffer (\<open>buf.getvalue()\<close>): a point-cloud payload, given by the
  header it declares (\<open>declared_header\<close>) and the points it holds, in order.
\<close>

datatype las_payload = LasPayload (declared_header: las_header) (written_points: "point list")

definition getvalue :: "las_writer \<Rightarrow> las_payload" where
  "getvalue w = LasPayload (w_header w) (w_points w)"

text \<open>Line 56, \<open>np.any(mask)\<close>, \<open>points[mask]\<close> and \<open>np.sum(mask)\<close>.\<close>

definition mask_of :: "bounds \<Rightarrow> point list \<Rightarrow> bool list" where
  "mask_of b points = map (\<lambda>p. in_bounds b (pt_x p) (pt_y p)) points"

definition np_any :: "bool list \<Rightarrow> bool" where
  "np_any msk = (True \<in> set msk)"

definition masked :: "point list \<Rightarrow> bool list \<Rightarrow> point list" where
  "masked points msk = map fst (filter snd (zip points msk))"

definition np_sum :: "bool list \<Rightarrow> nat" where
  "np_sum msk = length (filter id msk)"

definition enumerate_py :: "'a list \<Rightarrow> (nat \<times> 'a) list" where
  "enumerate_py xs = zip [0..<length xs] xs"

text \<open>
  The loop over the partitions for one chunk (lines 55-65), with the running tally
  \<open>point_piped\<close> and the \<open>break\<close>. \<open>writers[i]\<close> raises \<open>IndexError\<close> out of range.
\<close>

fun route_bounds ::
  "point list \<Rightarrow> (nat \<times> bounds) list \<Rightarrow> nat \<Rightarrow> las_writer list \<Rightarrow> py_error option \<times> las_writer list" where
  "route_bounds points [] point_piped writers = (None, writers)"
| "route_bounds points ((i, b) # rest) point_piped writers =
     (let msk = mask_of b points in
      if np_any msk \<and> length writers \<le> i then (Some IndexError, writers)
      else
        let writers' = (if np_any msk
                        then writers[i := write_points (writers ! i) (masked points msk)]
                        else writers);
            point_piped' = point_piped + np_sum msk
        in if point_piped' = length points then (None, writers')
           else route_bounds points rest point_piped' writers')"

text \<open>
  The loop over the chunks (lines 46-66). The progress line divides by the header's
  point count, which raises \<open>ZeroDivisionError\<close> when that is \<open>0\<close>; what it prints is
  not modelled.
\<close>

fun route_chunks ::
  "las_header \<Rightarrow> bounds list \<Rightarrow> point list list \<Rightarrow> nat \<Rightarrow> las_writer list
     \<Rightarrow> (py_error + nat) \<times> las_writer list" where
  "route_chunks hdr sub_bounds [] count writers = (Inr count, writers)"
| "route_chunks hdr sub_bounds (points # later) count writers =
     (if point_count hdr = 0 then (Inl ZeroDivisionError, writers)
      else
        case route_bounds points (enumerate_py sub_bounds) 0 writers of
          (Some e, writers') \<Rightarrow> (Inl e, writers')
        | (None, writers') \<Rightarrow> route_chunks hdr sub_bounds later (count + length points) writers')"

text \<open>
  The body of the \<open>try\<close> (lines 45-67): the chunk loop, the reader's error if the stream
  is broken, and the last progress line.
\<close>

definition routing :: "las_file \<Rightarrow> bounds list \<Rightarrow> las_writer list \<Rightarrow> py_error option \<times> las_writer list" where
  "routing file sub_bounds writers =
     (case route_chunks (header file) sub_bounds (chunk_iterator 1000000 (file_points file)) 0 writers of
        (Inl e, writers') \<Rightarrow> (Some e, writers')
      | (Inr count, writers') \<Rightarrow>
          (case read_failure file of
             Some e \<Rightarrow> (Some e, writers')
           | None \<Rightarrow>
               if point_count (header file) = 0 then (Some ZeroDivisionError, writers')
               else (None, writers')))"

text \<open>
  \<open>partition_las\<close>, from the opened file on. The second component of the result is the
  state of the writers when the function is left, on either path; the first is what the
  caller gets: the raised error, or the list of \<open>(file_path, i, payload)\<close>.
\<close>

definition partition_las ::
  "string \<Rightarrow> las_file \<Rightarrow> (py_error + (string \<times> nat \<times> las_payload) list) \<times> las_writer list" where
  "partition_las file_path file =
     (case square_split (hdr_x_min (header file)) (hdr_y_min (header file))
                        (hdr_x_max (header file)) (hdr_y_max (header file)) 2 of
        Inl e \<Rightarrow> (Inl e, [])
      | Inr sub_bounds \<Rightarrow>
          let writers = map (\<lambda>_. open_writer (header file)) [0..<length sub_bounds];
              (raised, writers') = routing file sub_bounds writers;
              closed = map close_writer writers'
          in case raised of
               Some e \<Rightarrow> (Inl e, closed)
             | None \<Rightarrow> (Inr (map (\<lambda>(i, w). (file_path, i, getvalue w)) (enumerate_py closed)), closed))"

text \<open>
  What holds of every writer while the points are routed: its header is the one the
  writer was opened with, grown by the points written to it, and it has not been closed.
\<close>

definition writers_ok :: "las_header \<Rightarrow> las_writer list \<Rightarrow> bool" where
  "writers_ok h ws =
     list_all (\<lambda>w. w_header w = grow (partial_reset h) (w_points w) \<and> w_closed w = 0) ws"

text \<open>
  The routing without the early stop, for comparison: every partition's membership mask
  is evaluated on every chunk, and the payload of a partition holds, chunk after chunk,
  the points of the chunk that the mask selects, under the header a writer opened with
  the source's header declares for them.
\<close>

definition payload_of :: "las_header \<Rightarrow> point list \<Rightarrow> las_payload" where
  "payload_of h ps = LasPayload (grow (partial_reset h) ps) ps"

definition full_routing_payloads ::
  "string \<Rightarrow> las_file \<Rightarrow> bounds list \<Rightarrow> (string \<times> nat \<times> las_payload) list" where
  "full_routing_payloads file_path file sub_bounds =
     map (\<lambda>(i, b).
            (file_path, i,
             payload_of (header file)
               (concat (map (\<lambda>points. masked points (mask_of b points))
                            (chunk_iterator 1000000 (file_points file))))))
         (enumerate_py sub_bounds)"

text \<open>
  For the comparison of the two routings: the number of mask hits of a chunk over all
  partitions, and the effect on the writers of writing, for every partition, the points
  its mask selects.
\<close>

definition total_hits :: "point list \<Rightarrow> bounds list \<Rightarrow> nat" where
  "total_hits points bs = sum_list (map (\<lambda>b. np_sum (mask_of b points)) bs)"

definition write_masked :: "point list \<Rightarrow> bounds list \<Rightarrow> las_writer list \<Rightarrow> las_writer list" where
  "write_masked points bs ws =
     map (\<lambda>(w, b). write_points w (masked points (mask_of b points))) (zip ws bs)"

text \<open>
  Concrete inputs: a point with no further attributes, a header that declares the
  bounds \<open>(0, 0, 100, 100)\<close> and \<open>n\<close> points, and four small files whose points span
  exactly those bounds (the truncated one loses its last point).
\<close>

definition pt :: "f64 \<Rightarrow> f64 \<Rightarrow> point" where
  "pt x y = \<lparr>pt_x = x, pt_y = y, pt_attrs = 0\<rparr>"

definition hdr100 :: "nat \<Rightarrow> las_header" where
  "hdr100 n =
     \<lparr>hdr_x_min = d0, hdr_y_min = d0, hdr_x_max = d100, hdr_y_max = d100,
      point_count = n, point_format = 3\<rparr>"

text \<open>The header a payload declares: its extent and its number of points.\<close>

definition hdr_of :: "f64 \<Rightarrow> f64 \<Rightarrow> f64 \<Rightarrow> f64 \<Rightarrow> nat \<Rightarrow> las_header" where
  "hdr_of x_min y_min x_max y_max n =
     \<lparr>hdr_x_min = x_min, hdr_y_min = y_min, hdr_x_max = x_max, hdr_y_max = y_max,
      point_count = n, point_format = 3\<rparr>"

definition truncated_file :: las_file where
  "truncated_file =
     \<lparr>header = hdr100 3, file_points = [pt d0 d0, pt d25 d25],
      read_failure = Some (LibraryError ''truncated stream'')\<rparr>"

definition sparse_file :: las_file where
  "sparse_file =
     \<lparr>header = hdr100 3, file_points = [pt d0 d0, pt d25 d25, pt d100 d100],
      read_failure = None\<rparr>"

definition boundary_file :: las_file where
  "boundary_file =
     \<lparr>header = hdr100 3, file_points = [pt d0 d0, pt d50 d50, pt d100 d100],
      read_failure = None\<rparr>"

definition corner_file :: las_file where
  "corner_file =
     \<lparr>header = hdr100 4, file_points = [pt d0 d0, pt d25 d25, pt d50 d50, pt d100 d100],
      read_failure = None\<rparr>"

section \<open>Raster tiles, temporary files and the two merge functions\<close>

text \<open>
  A raster as rasterio reads and writes it: the metadata dictionary (\<open>.meta\<close>, the
  keyword arguments of \<open>rio.open(..., 'w', **meta)\<close>) and the pixel array with its shape
  \<open>(bands, rows, columns)\<close>.
\<close>

datatype meta_value = Str string | Num int | Flag bool | Affine "real list"

record ndarray =
  shape :: "nat \<times> nat \<times> nat"
  cells :: "real list"

record raster =
  meta :: "string \<rightharpoonup> meta_value"
  pixels :: ndarray

text \<open>
  The content of a file: a GeoTIFF, given by the raster it decodes to, or any other
  bytes. Temporary files live in a file system that maps names to contents.
\<close>

datatype file_data = Blob "nat list" | GTiff raster

type_synonym filesystem = "string \<rightharpoonup> file_data"

definition read_file :: "filesystem \<Rightarrow> string \<Rightarrow> py_error + file_data" where
  "read_file fs name = (case fs name of None \<Rightarrow> Inl FileNotFoundError | Some d \<Rightarrow> Inr d)"

definition os_remove :: "filesystem \<Rightarrow> string \<Rightarrow> py_error + filesystem" where
  "os_remove fs name =
     (case fs name of None \<Rightarrow> Inl FileNotFoundError | Some d \<Rightarrow> Inr (fs(name := None)))"

text \<open>\<open>try: os.remove(f)\<close> / \<open>except FileNotFoundError: pass\<close>.\<close>

definition remove_unless_missing :: "filesystem \<Rightarrow> string \<Rightarrow> py_error + filesystem" where
  "remove_unless_missing fs name =
     (case os_remove fs name of
        Inl e \<Rightarrow> if e = FileNotFoundError then Inr fs else Inl e
      | Inr fs' \<Rightarrow> Inr fs')"

text \<open>
  The two shapes of the cleanup loop over a list of files: guarded (lines 341-345) and
  bare (lines 417-421). Each gives the error that left the loop, if any, and the file
  system at that moment.
\<close>

fun remove_each_unless_missing :: "filesystem \<Rightarrow> string list \<Rightarrow> py_error option \<times> filesystem" where
  "remove_each_unless_missing fs [] = (None, fs)"
| "remove_each_unless_missing fs (f # files) =
     (case remove_unless_missing fs f of
        Inl e \<Rightarrow> (Some e, fs)
      | Inr fs' \<Rightarrow> remove_each_unless_missing fs' files)"

fun remove_each :: "filesystem \<Rightarrow> string list \<Rightarrow> py_error option \<times> filesystem" where
  "remove_each fs [] = (None, fs)"
| "remove_each fs (f # files) =
     (case os_remove fs f of
        Inl e \<Rightarrow> (Some e, fs)
      | Inr fs' \<Rightarrow> remove_each fs' files)"

text \<open>\<open>rasterio.open(f)\<close> for reading, and \<open>[rasterio.open(f) for f in files]\<close>.\<close>

definition rasterio_open :: "filesystem \<Rightarrow> string \<Rightarrow> py_error + raster" where
  "rasterio_open fs name =
     (case fs name of
        Some (GTiff r) \<Rightarrow> Inr r
      | Some (Blob bs) \<Rightarrow> Inl (LibraryError ''RasterioIOError'')
      | None \<Rightarrow> Inl (LibraryError ''RasterioIOError''))"

fun open_each :: "filesystem \<Rightarrow> string list \<Rightarrow> py_error + raster list" where
  "open_each fs [] = Inr []"
| "open_each fs (f # files) =
     (case rasterio_open fs f of
        Inl e \<Rightarrow> Inl e
      | Inr d \<Rightarrow> (case open_each fs files of Inl e \<Rightarrow> Inl e | Inr ds \<Rightarrow> Inr (d # ds)))"

text \<open>The decimal text of an integer, as an f-string formats the partition index.\<close>

definition digit_char :: "nat \<Rightarrow> char" where
  "digit_char d = ''0123456789'' ! d"

function str_nat :: "nat \<Rightarrow> string" where
  "str_nat n = (if n < 10 then [digit_char n] else str_nat (n div 10) @ [digit_char (n mod 10)])"
  by pat_completeness auto
termination
  by (relation "measure id") auto

declare str_nat.simps [simp del]

definition str_int :: "int \<Rightarrow> string" where
  "str_int i = (if i < 0 then CHR ''-'' # str_nat (nat (- i)) else str_nat (nat i))"

text \<open>
  \<open>merge_dem_partitions\<close>. \<open>rasterio.merge.merge\<close> is a parameter: from the opened
  datasets it gives the mosaic array and its transform, or raises. The name that
  \<open>tempfile.mktemp()\<close> returns is a parameter as well. The result is what the caller
  gets, with the file system as the call leaves it.
\<close>

fun write_dem_parts ::
  "string \<Rightarrow> (string \<times> int \<times> file_data) list \<Rightarrow> string list \<Rightarrow> filesystem
     \<Rightarrow> string list \<times> filesystem" where
  "write_dem_parts tmp_file_prefix [] dem_files fs = (dem_files, fs)"
| "write_dem_parts tmp_file_prefix ((_, i, dem) # rest) dem_files fs =
     (let tmp_dem_file = tmp_file_prefix @ ''_dem-part'' @ str_int i @ ''.gtiff''
      in write_dem_parts tmp_file_prefix rest (dem_files @ [tmp_dem_file]) (fs(tmp_dem_file \<mapsto> dem)))"

definition merge_dem_partitions ::
  "(raster list \<Rightarrow> py_error + ndarray \<times> real list) \<Rightarrow> string \<Rightarrow> filesystem \<Rightarrow> string
     \<Rightarrow> (string \<times> int \<times> file_data) list \<Rightarrow> (py_error + string \<times> file_data) \<times> filesystem" where
  "merge_dem_partitions rio_merge tmp_file_prefix fs key partitions =
     (let file_path = key;
          (dem_files, fs1) = write_dem_parts tmp_file_prefix partitions [] fs
      in case open_each fs1 dem_files of
           Inl e \<Rightarrow> (Inl e, fs1)
         | Inr dems \<Rightarrow>
        (case rio_merge dems of
           Inl e \<Rightarrow> (Inl e, fs1)
         | Inr (mosaic_dem, output_dem) \<Rightarrow>
        (case dems of
           [] \<Rightarrow> (Inl IndexError, fs1)
         | dem0 # _ \<Rightarrow>
             let dem_output_meta = (meta dem0)
                   (''driver'' \<mapsto> Str ''GTiff'',
                    ''blockxsize'' \<mapsto> Num 256,
                    ''blockysize'' \<mapsto> Num 256,
                    ''tiled'' \<mapsto> Flag True,
                    ''height'' \<mapsto> Num (int (fst (snd (shape mosaic_dem)))),
                    ''width'' \<mapsto> Num (int (snd (snd (shape mosaic_dem)))),
                    ''transform'' \<mapsto> Affine output_dem);
                 file_dem_merged = tmp_file_prefix @ ''_dem-merged.gtiff'';
                 fs2 = fs1(file_dem_merged \<mapsto> GTiff \<lparr>meta = dem_output_meta, pixels = mosaic_dem\<rparr>)
             in case read_file fs2 file_dem_merged of
                  Inl e \<Rightarrow> (Inl e, fs2)
                | Inr dem_merged \<Rightarrow>
               (case remove_unless_missing fs2 file_dem_merged of
                  Inl e \<Rightarrow> (Inl e, fs2)
                | Inr fs3 \<Rightarrow>
               (case remove_each_unless_missing fs3 dem_files of
                  (Some e, fs4) \<Rightarrow> (Inl e, fs4)
                | (None, fs4) \<Rightarrow> (Inr (file_path, dem_merged), fs4))))))"

text \<open>\<open>merge_partitions\<close>, with the same parameters.\<close>

fun write_parts ::
  "string \<Rightarrow> (string \<times> int \<times> file_data \<times> file_data) list \<Rightarrow> string list \<Rightarrow> string list
     \<Rightarrow> filesystem \<Rightarrow> string list \<times> string list \<times> filesystem" where
  "write_parts tmp_file_prefix [] dsm_files dem_files fs = (dsm_files, dem_files, fs)"
| "write_parts tmp_file_prefix ((_, i, dsm, dem) # rest) dsm_files dem_files fs =
     (let tmp_dsm_file = tmp_file_prefix @ ''_dsm-part'' @ str_int i @ ''.gtiff'';
          fs' = fs(tmp_dsm_file \<mapsto> dsm);
          tmp_dem_file = tmp_file_prefix @ ''_dem-part'' @ str_int i @ ''.gtiff'';
          fs'' = fs'(tmp_dem_file \<mapsto> dem)
      in write_parts tmp_file_prefix rest (dsm_files @ [tmp_dsm_file]) (dem_files @ [tmp_dem_file]) fs'')"

text \<open>Lines 409-423: reading the two merged files back and removing every temporary file.\<close>

definition read_back_and_clean ::
  "string \<Rightarrow> string \<Rightarrow> string \<Rightarrow> string list \<Rightarrow> string list \<Rightarrow> filesystem
     \<Rightarrow> (py_error + string \<times> file_data \<times> file_data) \<times> filesystem" where
  "read_back_and_clean file_path file_dsm_merged file_dem_merged dsm_files dem_files fs =
     (case read_file fs file_dsm_merged of
        Inl e \<Rightarrow> (Inl e, fs)
      | Inr dsm_merged \<Rightarrow>
     (case os_remove fs file_dsm_merged of
        Inl e \<Rightarrow> (Inl e, fs)
      | Inr fs1 \<Rightarrow>
     (case read_file fs1 file_dem_merged of
        Inl e \<Rightarrow> (Inl e, fs1)
      | Inr dem_merged \<Rightarrow>
     (case os_remove fs1 file_dem_merged of
        Inl e \<Rightarrow> (Inl e, fs1)
      | Inr fs2 \<Rightarrow>
     (case remove_each fs2 dsm_files of
        (Some e, fs3) \<Rightarrow> (Inl e, fs3)
      | (None, fs3) \<Rightarrow>
     (case remove_each fs3 dem_files of
        (Some e, fs4) \<Rightarrow> (Inl e, fs4)
      | (None, fs4) \<Rightarrow> (Inr (file_path, dsm_merged, dem_merged), fs4)))))))"

definition merge_partitions ::
  "(raster list \<Rightarrow> py_error + ndarray \<times> real list) \<Rightarrow> string \<Rightarrow> filesystem \<Rightarrow> string
     \<Rightarrow> (string \<times> int \<times> file_data \<times> file_data) list
     \<Rightarrow> (py_error + string \<times> file_data \<times> file_data) \<times> filesystem" where
  "merge_partitions rio_merge tmp_file_prefix fs key partitions =
     (let file_path = key;
          (dsm_files, dem_files, fs1) = write_parts tmp_file_prefix partitions [] [] fs
      in case open_each fs1 dsm_files of
           Inl e \<Rightarrow> (Inl e, fs1)
         | Inr dsms \<Rightarrow>
        (case open_each fs1 dem_files of
           Inl e \<Rightarrow> (Inl e, fs1)
         | Inr dems \<Rightarrow>
        (case rio_merge dsms of
           Inl e \<Rightarrow> (Inl e, fs1)
         | Inr (mosaic_dsm, output_dsm) \<Rightarrow>
        (case rio_merge dems of
           Inl e \<Rightarrow> (Inl e, fs1)
         | Inr (mosaic_dem, output_dem) \<Rightarrow>
        (case dsms of
           [] \<Rightarrow> (Inl IndexError, fs1)
         | dsm0 # _ \<Rightarrow>
             let dsm_output_meta = (meta dsm0)
                   (''driver'' \<mapsto> Str ''GTiff'',
                    ''height'' \<mapsto> Num (int (fst (snd (shape mosaic_dsm)))),
                    ''width'' \<mapsto> Num (int (snd (snd (shape mosaic_dsm)))),
                    ''transform'' \<mapsto> Affine output_dsm);
                 file_dsm_merged = tmp_file_prefix @ ''_dsm-merged.gtiff'';
                 fs2 = fs1(file_dsm_merged \<mapsto> GTiff \<lparr>meta = dsm_output_meta, pixels = mosaic_dsm\<rparr>)
             in case dems of
                  [] \<Rightarrow> (Inl IndexError, fs2)
                | dem0 # _ \<Rightarrow>
                    let dem_output_meta = (meta dem0)
                          (''driver'' \<mapsto> Str ''GTiff'',
                           ''height'' \<mapsto> Num (int (fst (snd (shape mosaic_dem)))),
                           ''width'' \<mapsto> Num (int (snd (snd (shape mosaic_dem)))),
                           ''transform'' \<mapsto> Affine output_dem);
                        file_dem_merged = tmp_file_prefix @ ''_dem-merged.gtiff'';
                        fs3 = fs2(file_dem_merged \<mapsto> GTiff \<lparr>meta = dem_output_meta, pixels = mosaic_dem\<rparr>)
                    in read_back_and_clean file_path file_dsm_merged file_dem_merged
                         dsm_files dem_files fs3)))))"

text \<open>
  Concrete inputs. \<open>single_tile_merge\<close> stands for \<open>rasterio.merge.merge\<close> where all the
  datasets are one and the same tile: the mosaic is that tile's array under that tile's
  transform. On an empty list rasterio reads \<open>datasets[0]\<close>, an \<open>IndexError\<close>.
\<close>

definition single_tile_merge :: "raster list \<Rightarrow> py_error + ndarray \<times> real list" where
  "single_tile_merge ds =
     (case ds of
        [] \<Rightarrow> Inl IndexError
      | d # _ \<Rightarrow>
          Inr (pixels d, case meta d ''transform'' of Some (Affine t) \<Rightarrow> t | _ \<Rightarrow> []))"

definition tile_meta :: "string \<rightharpoonup> meta_value" where
  "tile_meta =
     [''driver'' \<mapsto> Str ''GTiff'', ''dtype'' \<mapsto> Str ''float64'', ''nodata'' \<mapsto> Num (- 9999),
      ''width'' \<mapsto> Num 2, ''height'' \<mapsto> Num 1, ''count'' \<mapsto> Num 1,
      ''crs'' \<mapsto> Str ''EPSG:25830'', ''transform'' \<mapsto> Affine [1, 0, 0, 0, - 1, 100]]"

definition tile :: file_data where
  "tile = GTiff \<lparr>meta = tile_meta, pixels = \<lparr>shape = (1, 1, 2), cells = [7, 8]\<rparr>\<rparr>"

text \<open>The metadata a GeoTIFF was written with (nothing for other bytes).\<close>

definition written_meta :: "file_data \<Rightarrow> string \<rightharpoonup> meta_value" where
  "written_meta d = (case d of GTiff r \<Rightarrow> meta r | Blob bs \<Rightarrow> Map.empty)"

section \<open>Properties of square\_split\<close>

lemma foldl_append_single:
  "foldl (\<lambda>acc j. acc @ [f j]) acc js = acc @ map f js"
  by (induction js arbitrary: acc) simp_all

lemma split_inner_eq:
  "split_inner x0 y0 dx dy n acc i = acc @ map (cell_bounds x0 y0 dx dy i) (py_range n)"
  by (simp add: split_inner_def foldl_append_single)

lemma foldl_split_inner:
  "foldl (split_inner x0 y0 dx dy n) acc ks =
     acc @ concat (map (\<lambda>i. map (cell_bounds x0 y0 dx dy i) (py_range n)) ks)"
  by (induction ks arbitrary: acc) (simp_all add: split_inner_eq)

lemma split_outer_eq:
  "split_outer x0 y0 dx dy n =
     concat (map (\<lambda>i. map (cell_bounds x0 y0 dx dy i) (py_range n)) (py_range n))"
  by (simp add: split_outer_def foldl_split_inner)

lemma length_concat_rows:
  "length (concat (map (\<lambda>i. map (g i) [0..<n]) [0..<m])) = m * n"
  by (induction m) simp_all

lemma nth_concat_rows:
  "i < m \<Longrightarrow> j < n \<Longrightarrow> concat (map (\<lambda>i. map (g i) [0..<n]) [0..<m]) ! (i * n + j) = g i j"
proof (induction m)
  case 0
  then show ?case by simp
next
  case (Suc m)
  show ?case
  proof (cases "i < m")
    case True
    then have "i * n + j < m * n"
    proof -
      from True have "Suc i \<le> m" by simp
      then have "Suc i * n \<le> m * n" by (rule mult_le_mono1)
      with \<open>j < n\<close> show ?thesis by simp
    qed
    with True Suc show ?thesis
      by (simp add: nth_append length_concat_rows)
  next
    case False
    with Suc.prems have "i = m" by simp
    with Suc.prems show ?thesis
      by (simp add: nth_append length_concat_rows)
  qed
qed

lemma split_outer_rows:
  "split_outer x0 y0 dx dy n =
     concat (map (\<lambda>i. map (\<lambda>j. cell_bounds x0 y0 dx dy (int i) (int j)) [0..<nat n]) [0..<nat n])"
  by (simp add: split_outer_eq py_range_def comp_def)

lemma py_range_2: "py_range 2 = [0, 1]"
  by (simp add: py_range_def numeral_2_eq_2)

subsection \<open>Evaluating double arithmetic\<close>

lemma bit_length_0: "bit_length 0 = 0"
  by (simp add: bit_length.simps)

lemma bit_length_Suc_0: "bit_length (Suc 0) = 1"
  by (simp add: bit_length.simps [of "Suc 0"] bit_length_0)

lemma bit_length_numeral:
  "bit_length (numeral n) = 1 + bit_length (numeral n div 2)"
  by (subst bit_length.simps) simp

lemma normalize_f64_0: "normalize_f64 0 e = F64 0 0"
  by (simp add: normalize_f64.simps)

lemma normalize_f64_1: "normalize_f64 1 e = F64 1 e"
  by (simp add: normalize_f64.simps)

lemma normalize_f64_numeral:
  "normalize_f64 (numeral n) e =
     (if even (numeral n :: int) then normalize_f64 (numeral n div 2) (e + 1) else F64 (numeral n) e)"
  by (subst normalize_f64.simps) simp

lemma normalize_f64_neg_numeral:
  "normalize_f64 (- numeral n) e =
     (if even (numeral n :: int) then normalize_f64 (- numeral n div 2) (e + 1)
      else F64 (- numeral n) e)"
  by (subst normalize_f64.simps) simp

lemmas eval_f64_op =
  f64_div_def f64_sub_def f64_add_def f64_mul_def f64_of_int_def f64_le_def align_def
  round53_def bit_length_0 bit_length_Suc_0 bit_length_numeral Let_def
  normalize_f64_0 normalize_f64_1 normalize_f64_numeral normalize_f64_neg_numeral

lemmas d_defs = d0_def d1_def d25_def d50_def d100_def x03_def

lemma f64_of_int_2: "f64_of_int 2 = F64 1 1"
  by (simp add: eval_f64_op)

subsection \<open>Converting a nonzero integer gives a nonzero double\<close>

lemma normalize_f64_mant: "m \<noteq> 0 \<Longrightarrow> mant (normalize_f64 m e) \<noteq> 0"
proof (induction m e rule: normalize_f64.induct)
  case (1 m e)
  show ?case
  proof (cases "even m")
    case True
    with "1.prems" have "m div 2 \<noteq> 0" by auto
    with "1.IH" [OF "1.prems" True] have "mant (normalize_f64 (m div 2) (e + 1)) \<noteq> 0" by simp
    with "1.prems" True show ?thesis by (subst normalize_f64.simps) simp
  next
    case False
    with "1.prems" show ?thesis by (subst normalize_f64.simps) simp
  qed
qed

lemma bit_length_lower: "0 < n \<Longrightarrow> 2 ^ (bit_length n - 1) \<le> n"
proof (induction n rule: bit_length.induct)
  case (1 n)
  show ?case
  proof (cases "n div 2 = 0")
    case True
    with "1.prems" have "n = 1" by presburger
    then show ?thesis by (simp add: bit_length_Suc_0)
  next
    case False
    then have pos: "0 < n div 2" by simp
    from "1.prems" have n0: "n \<noteq> 0" by simp
    from "1.IH" [OF n0 pos] have ih: "2 ^ (bit_length (n div 2) - 1) \<le> n div 2" .
    from pos have bl: "0 < bit_length (n div 2)"
      by (subst bit_length.simps) simp
    from n0 have "bit_length n - 1 = bit_length (n div 2)"
      by (subst bit_length.simps) simp
    moreover from bl have "(2::nat) ^ bit_length (n div 2) = 2 * 2 ^ (bit_length (n div 2) - 1)"
      by (cases "bit_length (n div 2)") simp_all
    ultimately have "2 ^ (bit_length n - 1) \<le> 2 * (n div 2)" using ih by simp
    also have "\<dots> \<le> n" by simp
    finally show ?thesis .
  qed
qed

lemma round53_mant: "m \<noteq> 0 \<Longrightarrow> mant (round53 m e) \<noteq> 0"
proof -
  assume m: "m \<noteq> 0"
  define a where "a = nat \<bar>m\<bar>"
  define k where "k = bit_length a - 53"
  define q' where "q' = (if 2 ^ (k - 1) < a mod 2 ^ k \<or> a mod 2 ^ k = 2 ^ (k - 1) \<and> odd (a div 2 ^ k)
                         then a div 2 ^ k + 1 else a div 2 ^ k)"
  have r: "round53 m e =
      (if k = 0 then normalize_f64 m e else normalize_f64 (sgn m * int q') (e + int k))"
    by (simp add: round53_def Let_def a_def k_def q'_def)
  from m have apos: "0 < a" by (simp add: a_def)
  show ?thesis
  proof (cases "k = 0")
    case True
    with r have "round53 m e = normalize_f64 m e" by simp
    with m show ?thesis by (simp add: normalize_f64_mant)
  next
    case False
    then have "k \<le> bit_length a - 1" by (simp add: k_def)
    then have "(2::nat) ^ k \<le> 2 ^ (bit_length a - 1)" by (intro power_increasing) simp_all
    also from apos have "\<dots> \<le> a" by (rule bit_length_lower)
    finally have "1 \<le> a div 2 ^ k" by (simp add: div_greater_zero_iff Suc_le_eq)
    then have "q' \<noteq> 0" by (simp add: q'_def)
    with m have "sgn m * int q' \<noteq> 0" by (simp add: sgn_eq_0_iff)
    then have "mant (normalize_f64 (sgn m * int q') (e + int k)) \<noteq> 0"
      by (rule normalize_f64_mant)
    moreover from r False
    have "round53 m e = normalize_f64 (sgn m * int q') (e + int k)" by simp
    ultimately show ?thesis by simp
  qed
qed

lemma f64_of_int_mant: "mant (f64_of_int n) = 0 \<longleftrightarrow> n = 0"
proof
  assume "mant (f64_of_int n) = 0"
  then show "n = 0" using round53_mant [of n 0] by (auto simp: f64_of_int_def)
next
  assume "n = 0"
  then show "mant (f64_of_int n) = 0" by (simp add: f64_of_int_def round53_def bit_length_0 normalize_f64_0)
qed

subsection \<open>The split factor\<close>

lemma square_split_returns:
  "n \<noteq> 0 \<Longrightarrow>
     \<exists>x_size y_size.
       f64_div (f64_sub x_max x_min) (f64_of_int n) = Inr x_size
       \<and> f64_div (f64_sub y_max y_min) (f64_of_int n) = Inr y_size
       \<and> square_split x_min y_min x_max y_max n = Inr (split_outer x_min y_min x_size y_size n)"
  by (simp add: square_split_def f64_div_def f64_of_int_mant Let_def)

text \<open>
  For a split factor \<open>n > 0\<close> the result has \<open>n * n\<close> cells in row-major order, and the
  cell at position \<open>i * n + j\<close> is what the loop body computes for \<open>i\<close> and \<open>j\<close> from
  the rounded cell sizes.
\<close>

lemma square_split_cells:
  assumes "0 < n"
  shows "\<exists>x_size y_size cells.
           f64_div (f64_sub x_max x_min) (f64_of_int n) = Inr x_size
           \<and> f64_div (f64_sub y_max y_min) (f64_of_int n) = Inr y_size
           \<and> square_split x_min y_min x_max y_max n = Inr cells
           \<and> length cells = nat (n * n)
           \<and> (\<forall>i j. i < nat n \<and> j < nat n \<longrightarrow>
                 cells ! (i * nat n + j) = cell_bounds x_min y_min x_size y_size (int i) (int j))"
proof -
  from assms have "n \<noteq> 0" by simp
  then obtain x_size y_size where
    xs: "f64_div (f64_sub x_max x_min) (f64_of_int n) = Inr x_size"
    and ys: "f64_div (f64_sub y_max y_min) (f64_of_int n) = Inr y_size"
    and eq: "square_split x_min y_min x_max y_max n = Inr (split_outer x_min y_min x_size y_size n)"
    using square_split_returns by blast
  from assms have len: "length (split_outer x_min y_min x_size y_size n) = nat (n * n)"
    by (simp add: split_outer_rows length_concat_rows nat_mult_distrib)
  have "split_outer x_min y_min x_size y_size n ! (i * nat n + j)
          = cell_bounds x_min y_min x_size y_size (int i) (int j)"
    if "i < nat n" "j < nat n" for i j
    using that by (simp add: split_outer_rows nth_concat_rows)
  with xs ys eq len show ?thesis by blast
qed




subsection \<open>The box from 0.3 to 1.0\<close>

lemma x_size_03_1:
  "f64_div (f64_sub d1 x03) (f64_of_int 2) = Inr (F64 3152519739159347 (- 53))"
  by (simp add: d_defs eval_f64_op)

lemma y_size_0_100:
  "f64_div (f64_sub d100 d0) (f64_of_int 2) = Inr d50"
  by (simp add: d_defs eval_f64_op)

lemma cell_03_1_00:
  "cell_bounds x03 d0 (F64 3152519739159347 (- 53)) d50 0 0 =
     (x03, d0, F64 1463669878895411 (- 51), d50)"
  by (simp add: d_defs cell_bounds_def eval_f64_op)

lemma cell_03_1_01:
  "cell_bounds x03 d0 (F64 3152519739159347 (- 53)) d50 0 1 =
     (x03, d50, F64 1463669878895411 (- 51), d100)"
  by (simp add: d_defs cell_bounds_def eval_f64_op)

lemma cell_03_1_10:
  "cell_bounds x03 d0 (F64 3152519739159347 (- 53)) d50 1 0 =
     (F64 1463669878895411 (- 51), d0, F64 9007199254740991 (- 53), d50)"
  by (simp add: d_defs cell_bounds_def eval_f64_op)

lemma cell_03_1_11:
  "cell_bounds x03 d0 (F64 3152519739159347 (- 53)) d50 1 1 =
     (F64 1463669878895411 (- 51), d50, F64 9007199254740991 (- 53), d100)"
  by (simp add: d_defs cell_bounds_def eval_f64_op)

lemma square_split_03_1:
  "square_split x03 d0 d1 d100 2 =
     Inr [(x03, d0, F64 1463669878895411 (- 51), d50),
          (x03, d50, F64 1463669878895411 (- 51), d100),
          (F64 1463669878895411 (- 51), d0, F64 9007199254740991 (- 53), d50),
          (F64 1463669878895411 (- 51), d50, F64 9007199254740991 (- 53), d100)]"
  by (simp add: square_split_def split_outer_eq x_size_03_1 y_size_0_100 py_range_2
      cell_03_1_00 cell_03_1_01 cell_03_1_10 cell_03_1_11)

text \<open>
  Claim C3 fails on the code, in what a cell spans. The result has \<open>n * n\<close> cells in
  row-major order (\<open>square_split_cells\<close>), but a right edge is the rounded sum of the
  rounded left edge and the rounded cell width, not \<open>x_min + (i + 1) * dx\<close>. For the box
  \<open>(0.3, 0.0, 1.0, 100.0)\<close> and \<open>n = 2\<close> the cell width \<open>dx\<close> is the double \<open>0.35\<close>; the
  cell at position \<open>1 * 2 + 0\<close> should end at \<open>x_min + 2 * dx\<close>, which is \<open>1.0\<close> for the
  exact \<open>dx = (x_max - x_min) / 2\<close> and also when computed on doubles, and it ends at
  \<open>9007199254740991 / 2 ^ 53\<close>, the double just below.
\<close>

theorem square_split_right_edge_off_formula:
  "f64_div (f64_sub d1 x03) (f64_of_int 2) = Inr (F64 3152519739159347 (- 53))
   \<and> f64_add x03 (f64_mul (f64_of_int 2) (F64 3152519739159347 (- 53))) = d1
   \<and> (case square_split x03 d0 d1 d100 2 of
         Inr bs \<Rightarrow>
           length bs = 4
           \<and> bs ! 2 = (F64 1463669878895411 (- 51), d0, F64 9007199254740991 (- 53), d50)
       | Inl e \<Rightarrow> False)
   \<and> F64 9007199254740991 (- 53) \<noteq> d1"
proof -
  have "f64_add x03 (f64_mul (f64_of_int 2) (F64 3152519739159347 (- 53))) = d1"
    by (simp add: d_defs eval_f64_op)
  moreover have "F64 9007199254740991 (- 53) \<noteq> d1" by (simp add: d_defs)
  ultimately show ?thesis by (simp add: x_size_03_1 square_split_03_1)
qed

text \<open>
  Claim C4 fails on the code. For the box \<open>(0.3, 0.0, 1.0, 100.0)\<close> and \<open>n = 2\<close> the cell
  width is the rounded half of the rounded difference \<open>1.0 - 0.3\<close>, and adding it twice
  to \<open>0.3\<close>, rounding each sum, gives \<open>9007199254740991 / 2 ^ 53\<close> for the right edge of
  the last two cells: one unit in the last place below \<open>1.0\<close>. The corner
  \<open>(1.0, 100.0)\<close> of the box lies in the box and in none of the four cells, so the union
  of the cells is not the box.
\<close>

theorem square_split_f64_leaves_gap:
  "square_split x03 d0 d1 d100 2 =
     Inr [(x03, d0, F64 1463669878895411 (- 51), d50),
          (x03, d50, F64 1463669878895411 (- 51), d100),
          (F64 1463669878895411 (- 51), d0, F64 9007199254740991 (- 53), d50),
          (F64 1463669878895411 (- 51), d50, F64 9007199254740991 (- 53), d100)]
   \<and> in_bounds (x03, d0, d1, d100) d1 d100
   \<and> map (\<lambda>b. in_bounds b d1 d100)
         [(x03, d0, F64 1463669878895411 (- 51), d50),
          (x03, d50, F64 1463669878895411 (- 51), d100),
          (F64 1463669878895411 (- 51), d0, F64 9007199254740991 (- 53), d50),
          (F64 1463669878895411 (- 51), d50, F64 9007199254740991 (- 53), d100)]
       = [False, False, False, False]"
  by (intro conjI square_split_03_1)
     (simp_all add: in_bounds_def f64_le_def align_def Let_def d_defs)

subsection \<open>The box from 0 to 100\<close>

text \<open>On the box \<open>(0, 0, 100, 100)\<close> with \<open>n = 2\<close> no operation rounds.\<close>

lemma cell_0_100_00: "cell_bounds d0 d0 d50 d50 0 0 = (d0, d0, d50, d50)"
  by (simp add: d_defs cell_bounds_def eval_f64_op)

lemma cell_0_100_01: "cell_bounds d0 d0 d50 d50 0 1 = (d0, d50, d50, d100)"
  by (simp add: d_defs cell_bounds_def eval_f64_op)

lemma cell_0_100_10: "cell_bounds d0 d0 d50 d50 1 0 = (d50, d0, d100, d50)"
  by (simp add: d_defs cell_bounds_def eval_f64_op)

lemma cell_0_100_11: "cell_bounds d0 d0 d50 d50 1 1 = (d50, d50, d100, d100)"
  by (simp add: d_defs cell_bounds_def eval_f64_op)

lemma square_split_100_2:
  "square_split d0 d0 d100 d100 2 =
     Inr [(d0, d0, d50, d50), (d0, d50, d50, d100), (d50, d0, d100, d50), (d50, d50, d100, d100)]"
  by (simp add: square_split_def split_outer_eq y_size_0_100 py_range_2
      cell_0_100_00 cell_0_100_01 cell_0_100_10 cell_0_100_11)

section \<open>Properties of partition\_las\<close>

lemma upt_0_4: "[0..<4] = [0, 1, 2, 3]"
  by (simp add: numeral_eq_Suc upt_rec)

subsection \<open>The headers of the writers\<close>

lemma grow_append: "grow (grow h ps) qs = grow h (ps @ qs)"
  by (simp add: grow_def)



lemma writers_ok_opened: "writers_ok h (map (\<lambda>_. open_writer h) ks)"
  by (simp add: writers_ok_def list_all_iff open_writer_def grow_def)

lemma writers_ok_write:
  "i < length ws \<Longrightarrow> writers_ok h ws \<Longrightarrow> writers_ok h (ws[i := write_points (ws ! i) ps])"
  by (auto simp: writers_ok_def list_all_length nth_list_update write_points_def grow_append)

lemma route_bounds_ok:
  "route_bounds points bs piped ws = (r, ws') \<Longrightarrow> writers_ok h ws
     \<Longrightarrow> writers_ok h ws' \<and> length ws' = length ws"
proof (induction points bs piped ws rule: route_bounds.induct)
  case (1 points point_piped writers)
  then show ?case by simp
next
  case (2 points i b rest point_piped writers)
  let ?msk = "mask_of b points"
  show ?case
  proof (cases "np_any ?msk \<and> length writers \<le> i")
    case True
    with "2.prems" show ?thesis by simp
  next
    case False
    define writers' where "writers' =
      (if np_any ?msk then writers[i := write_points (writers ! i) (masked points ?msk)] else writers)"
    from False "2.prems"(2) have step: "writers_ok h writers'" "length writers' = length writers"
      by (auto simp: writers'_def intro: writers_ok_write)
    show ?thesis
    proof (cases "point_piped + np_sum ?msk = length points")
      case True
      with False "2.prems"(1) have "ws' = writers'"
        by (auto simp: writers'_def Let_def split: if_splits)
      with step show ?thesis by simp
    next
      case stop: False
      with False "2.prems"(1)
      have "route_bounds points rest (point_piped + np_sum ?msk) writers' = (r, ws')"
        by (auto simp: writers'_def Let_def split: if_splits)
      from "2.IH" [OF refl False writers'_def refl stop this step(1)] step(2)
      show ?thesis by simp
    qed
  qed
qed

lemma route_chunks_ok:
  "route_chunks hdr sb cs count ws = (r, ws') \<Longrightarrow> writers_ok h ws
     \<Longrightarrow> writers_ok h ws' \<and> length ws' = length ws"
proof (induction cs arbitrary: count ws)
  case Nil
  then show ?case by simp
next
  case (Cons points later)
  show ?case
  proof (cases "point_count hdr = 0")
    case True
    with Cons.prems show ?thesis by simp
  next
    case False
    obtain e ws1 where rb: "route_bounds points (enumerate_py sb) 0 ws = (e, ws1)"
      by (cases "route_bounds points (enumerate_py sb) 0 ws")
    from route_bounds_ok [OF rb Cons.prems(2)]
    have s1: "writers_ok h ws1" "length ws1 = length ws" by simp_all
    show ?thesis
    proof (cases e)
      case None
      with False rb Cons.prems(1)
      have "route_chunks hdr sb later (count + length points) ws1 = (r, ws')" by simp
      from Cons.IH [OF this s1(1)] s1(2) show ?thesis by simp
    next
      case (Some err)
      with False rb Cons.prems(1) have "ws' = ws1" by simp
      with s1 show ?thesis by simp
    qed
  qed
qed

lemma routing_ok:
  "routing file sb ws = (r, ws') \<Longrightarrow> writers_ok h ws
     \<Longrightarrow> writers_ok h ws' \<and> length ws' = length ws"
  by (auto simp: routing_def split: prod.splits sum.splits option.splits if_splits
      dest: route_chunks_ok)

subsection \<open>Closing the writers\<close>

lemma square_split_2_length:
  "\<exists>sb. square_split x0 y0 x1 y1 2 = Inr sb \<and> length sb = 4"
  using square_split_cells [of 2 x1 x0 y1 y0] by auto

lemma partition_las_unfold:
  obtains sb r ws' where
    "square_split (hdr_x_min (header file)) (hdr_y_min (header file))
       (hdr_x_max (header file)) (hdr_y_max (header file)) 2 = Inr sb"
    and "length sb = 4"
    and "routing file sb (map (\<lambda>_. open_writer (header file)) [0..<length sb]) = (r, ws')"
    and "partition_las file_path file =
          (case r of
             Some e \<Rightarrow> (Inl e, map close_writer ws')
           | None \<Rightarrow> (Inr (map (\<lambda>(i, w). (file_path, i, getvalue w))
                              (enumerate_py (map close_writer ws'))), map close_writer ws'))"
proof -
  obtain sb where sb: "square_split (hdr_x_min (header file)) (hdr_y_min (header file))
       (hdr_x_max (header file)) (hdr_y_max (header file)) 2 = Inr sb" "length sb = 4"
    using square_split_2_length by blast
  obtain r ws' where r: "routing file sb (map (\<lambda>_. open_writer (header file)) [0..<length sb]) = (r, ws')"
    by (cases "routing file sb (map (\<lambda>_. open_writer (header file)) [0..<length sb])")
  from sb r have "partition_las file_path file =
          (case r of
             Some e \<Rightarrow> (Inl e, map close_writer ws')
           | None \<Rightarrow> (Inr (map (\<lambda>(i, w). (file_path, i, getvalue w))
                              (enumerate_py (map close_writer ws'))), map close_writer ws'))"
    by (simp add: partition_las_def Let_def)
  with sb r that show thesis by blast
qed

lemma routing_raises_on_read_failure:
  "read_failure file = Some e \<Longrightarrow> \<exists>e'. fst (routing file sb ws) = Some e'"
  by (simp add: routing_def split: prod.splits sum.splits)

text \<open>
  Claim C7. On every exit path of \<open>partition_las\<close>, normal or with an error raised in
  the routing loop, each of the four writers that were created has been closed exactly
  once when the function is left. When the body of the \<open>try\<close> raises, the caller gets
  that error and no payload list; in particular a source whose reader fails never yields
  payloads.
\<close>

theorem partition_las_closes_writers_once:
  "length (snd (partition_las file_path file)) = 4
   \<and> (\<forall>w \<in> set (snd (partition_las file_path file)). w_closed w = 1)
   \<and> (\<forall>sub_bounds e.
        square_split (hdr_x_min (header file)) (hdr_y_min (header file))
          (hdr_x_max (header file)) (hdr_y_max (header file)) 2 = Inr sub_bounds
        \<and> fst (routing file sub_bounds
                 (map (\<lambda>_. open_writer (header file)) [0..<length sub_bounds])) = Some e
        \<longrightarrow> fst (partition_las file_path file) = Inl e)
   \<and> (read_failure file \<noteq> None \<longrightarrow> isl (fst (partition_las file_path file)))"
proof -
  obtain sb r ws' where sb: "square_split (hdr_x_min (header file)) (hdr_y_min (header file))
       (hdr_x_max (header file)) (hdr_y_max (header file)) 2 = Inr sb"
    and len: "length sb = 4"
    and r: "routing file sb (map (\<lambda>_. open_writer (header file)) [0..<length sb]) = (r, ws')"
    and pl: "partition_las file_path file =
          (case r of
             Some e \<Rightarrow> (Inl e, map close_writer ws')
           | None \<Rightarrow> (Inr (map (\<lambda>(i, w). (file_path, i, getvalue w))
                              (enumerate_py (map close_writer ws'))), map close_writer ws'))"
    by (rule partition_las_unfold)
  from pl have final: "snd (partition_las file_path file) = map close_writer ws'"
    by (simp split: option.splits)
  from r have ok: "writers_ok (header file) ws'"
    and "length ws' = length (map (\<lambda>_. open_writer (header file)) [0..<length sb])"
    using routing_ok [OF _ writers_ok_opened] by blast+
  with len have l4: "length ws' = 4" by simp
  from ok have zero: "w_closed w = 0" if "w \<in> set ws'" for w
    using that by (simp add: writers_ok_def list_all_iff)
  have once: "\<forall>w \<in> set (snd (partition_las file_path file)). w_closed w = 1"
    unfolding final by (auto simp: close_writer_def zero)
  have raised: "fst (partition_las file_path file) = Inl e"
    if "square_split (hdr_x_min (header file)) (hdr_y_min (header file))
          (hdr_x_max (header file)) (hdr_y_max (header file)) 2 = Inr sub_bounds"
      and "fst (routing file sub_bounds
                 (map (\<lambda>_. open_writer (header file)) [0..<length sub_bounds])) = Some e"
    for sub_bounds e
  proof -
    from that(1) sb have "sub_bounds = sb" by simp
    with that(2) r have "r = Some e" by simp
    with pl show ?thesis by simp
  qed
  have broken: "isl (fst (partition_las file_path file))" if "read_failure file \<noteq> None"
  proof -
    from that obtain e where "read_failure file = Some e" by blast
    then have "\<exists>e'. fst (routing file sb
        (map (\<lambda>_. open_writer (header file)) [0..<length sb])) = Some e'"
      by (rule routing_raises_on_read_failure)
    with r obtain e' where "r = Some e'" by auto
    with pl show ?thesis by simp
  qed
  from final l4 once raised broken show ?thesis by simp
qed

lemmas eval_partition_las =
  partition_las_def hdr100_def hdr_of_def square_split_100_2 [unfolded d_defs] routing_def
  enumerate_py_def
  upt_0_4 mask_of_def in_bounds_def pt_def np_any_def masked_def np_sum_def
  open_writer_def write_points_def close_writer_def getvalue_def payload_of_def
  partial_reset_def grow_def grow_point_def f64_min_def f64_max_def f64_le_def align_def
  Let_def d_defs

theorem partition_las_closes_writers_once_witness:
  "map w_closed (snd (partition_las ''a.laz'' truncated_file)) = [1, 1, 1, 1]
   \<and> fst (partition_las ''a.laz'' truncated_file) = Inl (LibraryError ''truncated stream'')
   \<and> map w_points (snd (partition_las ''a.laz'' truncated_file))
       = [[pt d0 d0, pt d25 d25], [], [], []]"
proof -
  have ev: "partition_las ''a.laz'' truncated_file =
      (Inl (LibraryError ''truncated stream''),
       [\<lparr>w_header = hdr_of d0 d0 d25 d25 2, w_points = [pt d0 d0, pt d25 d25], w_closed = 1\<rparr>,
        \<lparr>w_header = hdr_of d0 d0 d0 d0 0, w_points = [], w_closed = 1\<rparr>,
        \<lparr>w_header = hdr_of d0 d0 d0 d0 0, w_points = [], w_closed = 1\<rparr>,
        \<lparr>w_header = hdr_of d0 d0 d0 d0 0, w_points = [], w_closed = 1\<rparr>])"
    unfolding truncated_file_def by (simp add: eval_partition_las)
  from partition_las_closes_writers_once [of "''a.laz''" truncated_file]
  have "isl (fst (partition_las ''a.laz'' truncated_file))"
    by (simp add: truncated_file_def)
  with ev show ?thesis by simp
qed

text \<open>
  Claim C1 fails on the code. The tally \<open>point_piped\<close> adds up mask hits, and a point on
  a shared cell boundary is hit by several masks. For a chunk holding \<open>(0, 0)\<close>,
  \<open>(50, 50)\<close> and \<open>(100, 100)\<close> the first cell gives two hits and the second one more
  (the point \<open>(50, 50)\<close> again): the tally equals the chunk's length, the loop is left,
  and \<open>(100, 100)\<close> is written to no partition. Evaluating every mask, it is in the
  fourth payload and \<open>(50, 50)\<close> is in all four.
\<close>

theorem early_stop_changes_payloads:
  "fst (partition_las ''a.laz'' boundary_file) =
     Inr [(''a.laz'', 0, LasPayload (hdr_of d0 d0 d50 d50 2) [pt d0 d0, pt d50 d50]),
          (''a.laz'', 1, LasPayload (hdr_of d50 d50 d50 d50 1) [pt d50 d50]),
          (''a.laz'', 2, LasPayload (hdr_of d0 d0 d0 d0 0) []),
          (''a.laz'', 3, LasPayload (hdr_of d0 d0 d0 d0 0) [])]
   \<and> full_routing_payloads ''a.laz'' boundary_file
         [(d0, d0, d50, d50), (d0, d50, d50, d100), (d50, d0, d100, d50), (d50, d50, d100, d100)] =
       [(''a.laz'', 0, LasPayload (hdr_of d0 d0 d50 d50 2) [pt d0 d0, pt d50 d50]),
        (''a.laz'', 1, LasPayload (hdr_of d50 d50 d50 d50 1) [pt d50 d50]),
        (''a.laz'', 2, LasPayload (hdr_of d50 d50 d50 d50 1) [pt d50 d50]),
        (''a.laz'', 3, LasPayload (hdr_of d50 d50 d100 d100 2) [pt d50 d50, pt d100 d100])]"
proof -
  have "fst (partition_las ''a.laz'' boundary_file) =
     Inr [(''a.laz'', 0, LasPayload (hdr_of d0 d0 d50 d50 2) [pt d0 d0, pt d50 d50]),
          (''a.laz'', 1, LasPayload (hdr_of d50 d50 d50 d50 1) [pt d50 d50]),
          (''a.laz'', 2, LasPayload (hdr_of d0 d0 d0 d0 0) []),
          (''a.laz'', 3, LasPayload (hdr_of d0 d0 d0 d0 0) [])]"
    unfolding boundary_file_def by (simp add: eval_partition_las)
  moreover have "full_routing_payloads ''a.laz'' boundary_file
         [(d0, d0, d50, d50), (d0, d50, d50, d100), (d50, d0, d100, d50), (d50, d50, d100, d100)] =
       [(''a.laz'', 0, LasPayload (hdr_of d0 d0 d50 d50 2) [pt d0 d0, pt d50 d50]),
        (''a.laz'', 1, LasPayload (hdr_of d50 d50 d50 d50 1) [pt d50 d50]),
        (''a.laz'', 2, LasPayload (hdr_of d50 d50 d50 d50 1) [pt d50 d50]),
        (''a.laz'', 3, LasPayload (hdr_of d50 d50 d100 d100 2) [pt d50 d50, pt d100 d100])]"
    unfolding boundary_file_def by (simp add: full_routing_payloads_def eval_partition_las)
  ultimately show ?thesis by simp
qed

text \<open>
  Claim C2 fails on the code in its second part. The four cells are as stated, and the
  point \<open>(25, 25)\<close> is written to the first payload only. The point \<open>(50, 50)\<close> is not
  written to all four payloads: in a chunk holding \<open>(0, 0)\<close>, \<open>(25, 25)\<close>, \<open>(50, 50)\<close>
  and \<open>(100, 100)\<close> the tally reaches the chunk's length after the second cell, so the
  third and the fourth payload stay empty.
\<close>

theorem corner_point_not_in_all_payloads:
  "square_split d0 d0 d100 d100 2 =
     Inr [(d0, d0, d50, d50), (d0, d50, d50, d100), (d50, d0, d100, d50), (d50, d50, d100, d100)]
   \<and> fst (partition_las ''a.laz'' corner_file) =
       Inr [(''a.laz'', 0, LasPayload (hdr_of d0 d0 d50 d50 3) [pt d0 d0, pt d25 d25, pt d50 d50]),
            (''a.laz'', 1, LasPayload (hdr_of d50 d50 d50 d50 1) [pt d50 d50]),
            (''a.laz'', 2, LasPayload (hdr_of d0 d0 d0 d0 0) []),
            (''a.laz'', 3, LasPayload (hdr_of d0 d0 d0 d0 0) [])]"
proof -
  have "fst (partition_las ''a.laz'' corner_file) =
       Inr [(''a.laz'', 0, LasPayload (hdr_of d0 d0 d50 d50 3) [pt d0 d0, pt d25 d25, pt d50 d50]),
            (''a.laz'', 1, LasPayload (hdr_of d50 d50 d50 d50 1) [pt d50 d50]),
            (''a.laz'', 2, LasPayload (hdr_of d0 d0 d0 d0 0) []),
            (''a.laz'', 3, LasPayload (hdr_of d0 d0 d0 d0 0) [])]"
    unfolding corner_file_def by (simp add: eval_partition_las)
  with square_split_100_2 show ?thesis by simp
qed

subsection \<open>When the early stop changes nothing\<close>

lemma np_any_iff: "np_any msk \<longleftrightarrow> 0 < np_sum msk"
  by (induction msk) (auto simp: np_any_def np_sum_def)

lemma masked_no_hit: "\<not> np_any msk \<Longrightarrow> masked points msk = []"
  by (auto simp: np_any_def masked_def filter_empty_conv dest: set_zip_rightD)

lemma write_points_nothing: "write_points w [] = w"
  by (simp add: write_points_def grow_def)

lemma write_masked_Cons:
  "write_masked points (b # bs) (w # ws) =
     write_points w (masked points (mask_of b points)) # write_masked points bs ws"
  by (simp add: write_masked_def)

lemma write_masked_length: "length ws = length bs \<Longrightarrow> length (write_masked points bs ws) = length bs"
  by (simp add: write_masked_def)

lemma write_masked_idle:
  "total_hits points bs = 0 \<Longrightarrow> length ws = length bs \<Longrightarrow> write_masked points bs ws = ws"
proof (induction bs arbitrary: ws)
  case Nil
  then show ?case by (simp add: write_masked_def)
next
  case (Cons b bs)
  from Cons.prems(2) obtain w ws' where ws: "ws = w # ws'" "length ws' = length bs"
    by (cases ws) auto
  from Cons.prems(1) have z: "np_sum (mask_of b points) = 0" "total_hits points bs = 0"
    by (simp_all add: total_hits_def)
  from z(1) have "masked points (mask_of b points) = []"
    by (simp add: masked_no_hit np_any_iff)
  with Cons.IH [OF z(2) ws(2)] ws show ?case
    by (simp add: write_masked_Cons write_points_nothing)
qed

lemma route_bounds_is_write_masked:
  assumes "piped + total_hits points bs \<le> length points"
    and "length suf = length bs" and "length pre = k"
  shows "route_bounds points (zip [k..<k + length bs] bs) piped (pre @ suf)
           = (None, pre @ write_masked points bs suf)"
  using assms
proof (induction bs arbitrary: k pre suf piped)
  case Nil
  then show ?case by (simp add: write_masked_def)
next
  case (Cons b bs)
  from Cons.prems(2) obtain w suf' where suf: "suf = w # suf'" "length suf' = length bs"
    by (cases suf) auto
  let ?m = "masked points (mask_of b points)"
  let ?w = "write_points w ?m"
  have enum: "zip [k..<k + length (b # bs)] (b # bs) = (k, b) # zip [Suc k..<Suc k + length bs] bs"
    by (simp add: upt_conv_Cons del: upt_Suc)
  have upd: "(if np_any (mask_of b points)
              then (pre @ suf)[k := write_points ((pre @ suf) ! k) ?m] else pre @ suf)
             = (pre @ [?w]) @ suf'"
    using Cons.prems(3) suf
    by (auto simp: nth_append list_update_append masked_no_hit write_points_nothing)
  from Cons.prems(1) have le: "piped + np_sum (mask_of b points) + total_hits points bs \<le> length points"
    by (simp add: total_hits_def)
  have inrange: "\<not> (np_any (mask_of b points) \<and> length (pre @ suf) \<le> k)"
    using Cons.prems(3) suf by simp
  have step: "route_bounds points ((k, b) # rest) piped (pre @ suf) =
      (if piped + np_sum (mask_of b points) = length points then (None, (pre @ [?w]) @ suf')
       else route_bounds points rest (piped + np_sum (mask_of b points)) ((pre @ [?w]) @ suf'))"
    for rest
    by (simp only: route_bounds.simps Let_def inrange if_False upd)
  show ?case
  proof (cases "piped + np_sum (mask_of b points) = length points")
    case True
    with le have "total_hits points bs = 0" by simp
    then have "write_masked points bs suf' = suf'" using suf(2) by (rule write_masked_idle)
    with True suf(1) show ?thesis
      unfolding enum step by (simp add: write_masked_Cons)
  next
    case False
    from Cons.prems(3) have "length (pre @ [?w]) = Suc k" by simp
    from Cons.IH [OF le suf(2) this]
    have "route_bounds points (zip [Suc k..<Suc k + length bs] bs)
            (piped + np_sum (mask_of b points)) ((pre @ [?w]) @ suf')
          = (None, (pre @ [?w]) @ write_masked points bs suf')" .
    with False suf(1) show ?thesis
      unfolding enum step by (simp add: write_masked_Cons)
  qed
qed

lemma route_bounds_enumerate:
  assumes "total_hits points bs \<le> length points" and "length ws = length bs"
  shows "route_bounds points (enumerate_py bs) 0 ws = (None, write_masked points bs ws)"
  using route_bounds_is_write_masked [of 0 points bs ws "[]" 0] assms
  by (simp add: enumerate_py_def)

lemma route_chunks_is_write_masked:
  assumes "point_count hdr \<noteq> 0"
    and "\<forall>points \<in> set cs. total_hits points bs \<le> length points"
    and "length ws = length bs"
  shows "\<exists>n. route_chunks hdr bs cs count ws =
           (Inr n, foldl (\<lambda>ws points. write_masked points bs ws) ws cs)"
  using assms(2,3)
proof (induction cs arbitrary: count ws)
  case Nil
  then show ?case by simp
next
  case (Cons points later)
  from Cons.prems have rb: "route_bounds points (enumerate_py bs) 0 ws = (None, write_masked points bs ws)"
    by (simp add: route_bounds_enumerate)
  from Cons.prems have "length (write_masked points bs ws) = length bs"
    by (simp add: write_masked_length)
  with Cons.prems
  have "\<exists>n. route_chunks hdr bs later (count + length points) (write_masked points bs ws) =
           (Inr n, foldl (\<lambda>ws points. write_masked points bs ws) (write_masked points bs ws) later)"
    by (intro Cons.IH) simp_all
  with rb assms(1) show ?case by simp
qed

lemma foldl_write_masked:
  "foldl (\<lambda>ws points. write_masked points bs ws)
         (map (\<lambda>b. \<lparr>w_header = grow h (acc b), w_points = acc b, w_closed = c\<rparr>) bs) cs
   = map (\<lambda>b. \<lparr>w_header = grow h (acc b @ concat (map (\<lambda>points. masked points (mask_of b points)) cs)),
                  w_points = acc b @ concat (map (\<lambda>points. masked points (mask_of b points)) cs),
                  w_closed = c\<rparr>) bs"
proof (induction cs arbitrary: acc)
  case Nil
  show ?case by simp
next
  case (Cons points later)
  have "write_masked points bs (map (\<lambda>b. \<lparr>w_header = grow h (acc b), w_points = acc b, w_closed = c\<rparr>) bs)
        = map (\<lambda>b. \<lparr>w_header = grow h (acc b @ masked points (mask_of b points)),
                       w_points = acc b @ masked points (mask_of b points),
                       w_closed = c\<rparr>) bs"
    by (simp add: write_masked_def zip_map1 zip_same_conv_map write_points_def grow_append)
  then show ?case
    using Cons.IH [of "\<lambda>b. acc b @ masked points (mask_of b points)"] by simp
qed

lemma payloads_of_closed_writers:
  "map (\<lambda>(i, w). (fp, i, getvalue w))
       (enumerate_py (map close_writer
          (map (\<lambda>b. \<lparr>w_header = grow (partial_reset h) (f b), w_points = f b, w_closed = c\<rparr>) bs)))
   = map (\<lambda>(i, b). (fp, i, payload_of h (f b))) (enumerate_py bs)"
  by (simp add: enumerate_py_def zip_map2 getvalue_def close_writer_def payload_of_def comp_def
      split_def)

lemma total_hits_Cons:
  "total_hits (p # ps) bs =
     length (filter (\<lambda>b. in_bounds b (pt_x p) (pt_y p)) bs) + total_hits ps bs"
  by (induction bs) (simp_all add: total_hits_def mask_of_def np_sum_def)

lemma total_hits_Nil: "total_hits [] bs = 0"
  by (induction bs) (simp_all add: total_hits_def mask_of_def np_sum_def)

lemma total_hits_at_most_length:
  "\<forall>p \<in> set points. length (filter (\<lambda>b. in_bounds b (pt_x p) (pt_y p)) bs) \<le> 1
     \<Longrightarrow> total_hits points bs \<le> length points"
proof (induction points)
  case Nil
  show ?case by (simp add: total_hits_Nil)
next
  case (Cons p ps)
  then have "length (filter (\<lambda>b. in_bounds b (pt_x p) (pt_y p)) bs) \<le> 1"
    and "total_hits ps bs \<le> length ps" by simp_all
  then show ?case by (simp add: total_hits_Cons)
qed

text \<open>
  Where the early stop is harmless: if in every chunk the mask hits over
  all partitions add up to at most the number of points of the chunk (as they do when
  no point lies in two cells, by \<open>total_hits_at_most_length\<close>), the header's point count
  is not \<open>0\<close> and the reader does not fail, then \<open>partition_las\<close> returns exactly the
  payloads of the routing that evaluates every mask on every chunk.
\<close>

theorem early_stop_harmless_without_double_hits:
  assumes sb: "square_split (hdr_x_min (header file)) (hdr_y_min (header file))
                 (hdr_x_max (header file)) (hdr_y_max (header file)) 2 = Inr sub_bounds"
    and hits: "\<forall>points \<in> set (chunk_iterator 1000000 (file_points file)).
                 total_hits points sub_bounds \<le> length points"
    and "point_count (header file) \<noteq> 0"
    and "read_failure file = None"
  shows "fst (partition_las file_path file) = Inr (full_routing_payloads file_path file sub_bounds)"
proof -
  let ?cs = "chunk_iterator 1000000 (file_points file)"
  let ?ws0 = "map (\<lambda>_. open_writer (header file)) [0..<length sub_bounds]"
  have ws0: "?ws0 = map (\<lambda>b. \<lparr>w_header = grow (partial_reset (header file)) [],
                                w_points = [], w_closed = 0\<rparr>) sub_bounds"
    by (intro nth_equalityI) (simp_all add: open_writer_def grow_def)
  let ?final = "map (\<lambda>b. \<lparr>w_header = grow (partial_reset (header file))
                                (concat (map (\<lambda>points. masked points (mask_of b points)) ?cs)),
                   w_points = concat (map (\<lambda>points. masked points (mask_of b points)) ?cs),
                   w_closed = 0\<rparr>) sub_bounds"
  have "length ?ws0 = length sub_bounds" by simp
  with assms(3) hits obtain n where
    "route_chunks (header file) sub_bounds ?cs 0 ?ws0 =
       (Inr n, foldl (\<lambda>ws points. write_masked points sub_bounds ws) ?ws0 ?cs)"
    using route_chunks_is_write_masked by blast
  then have "route_chunks (header file) sub_bounds ?cs 0 ?ws0 = (Inr n, ?final)"
    by (simp only: ws0 foldl_write_masked append_Nil)
  with assms(3,4) have "routing file sub_bounds ?ws0 = (None, ?final)"
    by (simp add: routing_def)
  with sb have "fst (partition_las file_path file) =
      Inr (map (\<lambda>(i, w). (file_path, i, getvalue w)) (enumerate_py (map close_writer ?final)))"
    by (simp add: partition_las_def Let_def)
  then show ?thesis
    by (simp only: payloads_of_closed_writers full_routing_payloads_def)
qed

theorem early_stop_harmless_without_double_hits_witness:
  "fst (partition_las ''a.laz'' sparse_file) =
     Inr (full_routing_payloads ''a.laz'' sparse_file
            [(d0, d0, d50, d50), (d0, d50, d50, d100), (d50, d0, d100, d50), (d50, d50, d100, d100)])
   \<and> total_hits [pt d0 d0, pt d25 d25, pt d100 d100]
         [(d0, d0, d50, d50), (d0, d50, d50, d100), (d50, d0, d100, d50), (d50, d50, d100, d100)] = 3"
proof -
  have sb: "square_split (hdr_x_min (header sparse_file)) (hdr_y_min (header sparse_file))
              (hdr_x_max (header sparse_file)) (hdr_y_max (header sparse_file)) 2 =
            Inr [(d0, d0, d50, d50), (d0, d50, d50, d100), (d50, d0, d100, d50), (d50, d50, d100, d100)]"
    by (simp add: sparse_file_def hdr100_def hdr_of_def square_split_100_2)
  have th: "total_hits [pt d0 d0, pt d25 d25, pt d100 d100]
         [(d0, d0, d50, d50), (d0, d50, d50, d100), (d50, d0, d100, d50), (d50, d50, d100, d100)] = 3"
    by (simp add: total_hits_def mask_of_def in_bounds_def np_sum_def pt_def f64_le_def align_def
        Let_def d_defs)
  have hits: "\<forall>points \<in> set (chunk_iterator 1000000 (file_points sparse_file)).
         total_hits points
           [(d0, d0, d50, d50), (d0, d50, d50, d100), (d50, d0, d100, d50), (d50, d50, d100, d100)]
         \<le> length points"
    using th by (simp add: sparse_file_def)
  have "point_count (header sparse_file) \<noteq> 0" "read_failure sparse_file = None"
    by (simp_all add: sparse_file_def hdr100_def hdr_of_def)
  from early_stop_harmless_without_double_hits [OF sb hits this] th show ?thesis
    by (rule conjI)
qed

subsection \<open>The headers of the payloads\<close>






section \<open>Properties of the merge functions\<close>

lemma str_int_0: "str_int 0 = ''0''"
  by (simp add: str_int_def str_nat.simps digit_char_def)

text \<open>
  Claim C6, as amended. Neither merge function checks for an empty sequence, and there
  is no \<open>EmptyPartitionSet\<close> error. With no tile, no file is written and nothing is
  opened; the call fails with whatever \<open>rasterio.merge.merge\<close> raises on the empty
  list, or else with the \<open>IndexError\<close> of reading the first dataset's metadata. In both
  cases the caller gets an error and no mosaic.
\<close>

theorem merge_of_no_tiles_fails:
  "merge_dem_partitions rio_merge tmp_file_prefix fs key [] =
     (case rio_merge [] of Inl e \<Rightarrow> (Inl e, fs) | Inr m \<Rightarrow> (Inl IndexError, fs))
   \<and> merge_partitions rio_merge tmp_file_prefix fs key [] =
     (case rio_merge [] of Inl e \<Rightarrow> (Inl e, fs) | Inr m \<Rightarrow> (Inl IndexError, fs))
   \<and> isl (fst (merge_dem_partitions rio_merge tmp_file_prefix fs key []))
   \<and> isl (fst (merge_partitions rio_merge tmp_file_prefix fs key []))"
  by (simp add: merge_dem_partitions_def merge_partitions_def split: sum.splits prod.splits)

text \<open>
  The claim as stated names the error \<open>EmptyPartitionSet\<close>; the error of both functions
  on the empty sequence is \<open>IndexError\<close>.
\<close>

theorem merge_of_no_tiles_counterexample:
  "fst (merge_dem_partitions single_tile_merge ''/tmp/t'' Map.empty ''a.laz'' []) = Inl IndexError
   \<and> fst (merge_partitions single_tile_merge ''/tmp/t'' Map.empty ''a.laz'' []) = Inl IndexError"
  by (simp add: merge_dem_partitions_def merge_partitions_def single_tile_merge_def)

lemmas eval_merge =
  merge_dem_partitions_def merge_partitions_def read_back_and_clean_def single_tile_merge_def
  tile_def tile_meta_def written_meta_def str_int_0 rasterio_open_def read_file_def
  os_remove_def remove_unless_missing_def Let_def

text \<open>
  Claim C8 fails on the code. \<open>merge_dem_partitions\<close> writes its terrain-model mosaic
  with \<open>tiled\<close>, \<open>blockxsize\<close> and \<open>blockysize\<close>; \<open>merge_partitions\<close> updates the
  metadata of its terrain-model mosaic with driver, height, width and transform only,
  so for the same tile it writes that mosaic with none of the three keys, as it does
  for the surface model.
\<close>

theorem merge_partitions_dem_not_tiled:
  "(case fst (merge_partitions single_tile_merge ''/tmp/t'' Map.empty ''a.laz''
               [(''a.laz'', 0, tile, tile)]) of
      Inr (file_path, dsm_merged, dem_merged) \<Rightarrow>
        map (written_meta dem_merged) [''tiled'', ''blockxsize'', ''blockysize''] = [None, None, None]
        \<and> map (written_meta dsm_merged) [''tiled'', ''blockxsize'', ''blockysize''] = [None, None, None]
    | Inl e \<Rightarrow> False)
   \<and> (case fst (merge_dem_partitions single_tile_merge ''/tmp/t'' Map.empty ''a.laz''
                  [(''a.laz'', 0, tile)]) of
      Inr (file_path, dem_merged) \<Rightarrow>
        map (written_meta dem_merged) [''tiled'', ''blockxsize'', ''blockysize'']
          = [Some (Flag True), Some (Num 256), Some (Num 256)]
    | Inl e \<Rightarrow> False)"
  by (simp add: eval_merge)

text \<open>
  Claim C9 fails on the code for \<open>merge_partitions\<close>, whose calls of \<open>os.remove\<close> are
  not guarded. Two tiles with the same partition index share their temporary file
  names, so the cleanup loop removes the first name twice: the second removal finds the
  file missing and its \<open>FileNotFoundError\<close> reaches the caller. \<open>merge_dem_partitions\<close>,
  on the same tiles, swallows it and returns.
\<close>

theorem merge_partitions_cleanup_raises:
  "fst (merge_partitions single_tile_merge ''/tmp/t'' Map.empty ''a.laz''
          [(''a.laz'', 0, tile, tile), (''a.laz'', 0, tile, tile)]) = Inl FileNotFoundError
   \<and> \<not> isl (fst (merge_dem_partitions single_tile_merge ''/tmp/t'' Map.empty ''a.laz''
          [(''a.laz'', 0, tile), (''a.laz'', 0, tile)]))"
  by (simp add: eval_merge)

subsection \<open>What merge\_dem\_partitions returns\<close>

lemma remove_unless_missing_returns: "\<exists>fs'. remove_unless_missing fs f = Inr fs'"
  by (simp add: remove_unless_missing_def os_remove_def split: option.splits)

lemma remove_each_unless_missing_returns: "fst (remove_each_unless_missing fs files) = None"
proof (induction files arbitrary: fs)
  case Nil
  show ?case by simp
next
  case (Cons f files)
  obtain fs' where "remove_unless_missing fs f = Inr fs'"
    using remove_unless_missing_returns by blast
  with Cons show ?case by simp
qed

text \<open>
  Once its tiles are written, opened and merged, \<open>merge_dem_partitions\<close>
  always returns: the cleanup never raises, whatever files are missing. What it returns
  is the mosaic written under the first tile's metadata, updated with the driver, the
  tiling keys (\<open>tiled\<close>, 256 by 256 blocks), the mosaic's height and width and the new
  transform.
\<close>

theorem merge_dem_partitions_returns_tiled:
  assumes "write_dem_parts tmp_file_prefix partitions [] fs = (dem_files, fs1)"
    and "open_each fs1 dem_files = Inr (dem0 # dems)"
    and "rio_merge (dem0 # dems) = Inr (mosaic_dem, output_dem)"
  shows "fst (merge_dem_partitions rio_merge tmp_file_prefix fs key partitions) =
           Inr (key, GTiff \<lparr>meta = (meta dem0)
                   (''driver'' \<mapsto> Str ''GTiff'',
                    ''blockxsize'' \<mapsto> Num 256,
                    ''blockysize'' \<mapsto> Num 256,
                    ''tiled'' \<mapsto> Flag True,
                    ''height'' \<mapsto> Num (int (fst (snd (shape mosaic_dem)))),
                    ''width'' \<mapsto> Num (int (snd (snd (shape mosaic_dem)))),
                    ''transform'' \<mapsto> Affine output_dem),
                 pixels = mosaic_dem\<rparr>)"
proof -
  let ?merged = "tmp_file_prefix @ ''_dem-merged.gtiff''"
  let ?r = "\<lparr>meta = (meta dem0)
                   (''driver'' \<mapsto> Str ''GTiff'',
                    ''blockxsize'' \<mapsto> Num 256,
                    ''blockysize'' \<mapsto> Num 256,
                    ''tiled'' \<mapsto> Flag True,
                    ''height'' \<mapsto> Num (int (fst (snd (shape mosaic_dem)))),
                    ''width'' \<mapsto> Num (int (snd (snd (shape mosaic_dem)))),
                    ''transform'' \<mapsto> Affine output_dem),
                 pixels = mosaic_dem\<rparr>"
  let ?fs2 = "fs1(?merged \<mapsto> GTiff ?r)"
  have rd: "read_file ?fs2 ?merged = Inr (GTiff ?r)" by (simp add: read_file_def)
  obtain fs3 where rm: "remove_unless_missing ?fs2 ?merged = Inr fs3"
    using remove_unless_missing_returns by blast
  obtain fs4 where cl: "remove_each_unless_missing fs3 dem_files = (None, fs4)"
    using remove_each_unless_missing_returns [of fs3 dem_files]
    by (cases "remove_each_unless_missing fs3 dem_files") simp
  from assms rd rm cl show ?thesis
    by (simp add: merge_dem_partitions_def Let_def)
qed

theorem merge_dem_partitions_returns_tiled_witness:
  "map (written_meta (snd (projr (fst (merge_dem_partitions single_tile_merge ''/tmp/t'' Map.empty ''a.laz''
          [(''a.laz'', 0, tile), (''a.laz'', 0, tile)])))))
     [''tiled'', ''blockxsize'', ''blockysize'', ''crs''] =
     [Some (Flag True), Some (Num 256), Some (Num 256), Some (Str ''EPSG:25830'')]"
proof -
  let ?f = "''/tmp/t_dem-part0.gtiff''"
  let ?r = "\<lparr>meta = tile_meta, pixels = \<lparr>shape = (1, 1, 2), cells = [7, 8]\<rparr>\<rparr>"
  have w: "write_dem_parts ''/tmp/t'' [(''a.laz'', 0, tile), (''a.laz'', 0, tile)] [] Map.empty
             = ([?f, ?f], [?f \<mapsto> tile])"
    by (simp add: str_int_0 Let_def)
  have opn: "open_each [?f \<mapsto> tile] [?f, ?f] = Inr [?r, ?r]"
    by (simp add: rasterio_open_def tile_def)
  have mrg: "single_tile_merge [?r, ?r] = Inr (pixels ?r, [1, 0, 0, 0, - 1, 100])"
    by (simp add: single_tile_merge_def tile_meta_def)
  from merge_dem_partitions_returns_tiled
         [where rio_merge = single_tile_merge and key = "''a.laz''", OF w opn mrg]
  show ?thesis by (simp add: written_meta_def tile_meta_def)
qed

end
